theory Spec2Isabelle
  imports Complex_Main "HOL-Library.Multiset"
begin

section \<open>Python values used by backend/main.py\<close>

text \<open>
  Exceptions are values.  Wall-clock times (\<open>time.time()\<close>) and the confidences
  handled by the notification service are Python floats in the source; they are
  modelled as \<open>real\<close>, so rounding of float arithmetic is not part of the model.
  The single-precision probability that NumPy computes in the inference client is not
  modelled as a real: its type and its operations are parameters.
\<close>

datatype py_exception =
    ValueError string
  | RuntimeError string
  | ZeroDivisionError

text \<open>
  The slice \<open>xs[i:]\<close> of a Python list: a negative start counts from the end and is
  clipped at the beginning of the list, a start beyond the end gives the empty list.
  Note that \<open>xs[-0:]\<close> is \<open>xs[0:]\<close>, the whole list.
\<close>

definition py_slice_from :: "int \<Rightarrow> 'a list \<Rightarrow> 'a list" where
  "py_slice_from i xs =
     (if i < 0 then drop (nat (int (length xs) + i)) xs else drop (nat i) xs)"

text \<open>\<open>a / b\<close> and \<open>a % b\<close> raise ZeroDivisionError on a zero divisor.\<close>

definition py_truediv :: "real \<Rightarrow> real \<Rightarrow> py_exception + real" where
  "py_truediv a b = (if b = 0 then Inl ZeroDivisionError else Inr (a / b))"

definition py_mod :: "int \<Rightarrow> int \<Rightarrow> py_exception + int" where
  "py_mod a b = (if b = 0 then Inl ZeroDivisionError else Inr (a mod b))"

text \<open>\<open>int(x)\<close> of a float truncates towards zero.\<close>

definition py_int :: "real \<Rightarrow> int" where
  "py_int x = (if 0 \<le> x then \<lfloor>x\<rfloor> else \<lceil>x\<rceil>)"

section \<open>Data model\<close>

text \<open>The fields of \<open>SystemSettings\<close> that the stream processor reads.\<close>

record system_settings =
  frame_skip :: int
  confidence_threshold :: real
  buffer_size :: int

text \<open>
  \<open>class DetectionResult(BaseModel)\<close>.  The confidence is the Python float that
  \<open>TritonClient.predict\<close> returns; its type \<open>'c\<close> is that of the inference
  client's probabilities.  The notification service reads confidences as reals.
\<close>

record 'c detection_result =
  stream_id :: string
  timestamp :: real
  is_violence :: bool
  confidence :: 'c
  frame_data :: string

text \<open>
  \<open>class TritonClient\<close>: \<open>client\<close> is the handle of the inference server, \<open>None\<close>
  in the source when no connection could be made.
\<close>

record triton_client =
  client :: bool

text \<open>
  \<open>class RTSPProcessor\<close>, over the type \<open>'f\<close> of normalised frames.  The lock, the
  shutdown event and the thread handles have no counterpart: every operation below is
  one atomic step of the sequential model.
\<close>

record ('f, 'c) rtsp_processor =
  proc_stream_id :: string
  rtsp_url :: string
  name :: string
  triton_client :: "triton_client option"
  is_running :: bool
  detection_running :: bool
  frame_buffer :: "'f list"
  proc_buffer_size :: int
  fps :: real
  total_frames :: int
  detection_count :: int
  last_detection :: "'c detection_result option"
  proc_start_time :: real
  results_queue :: "'c detection_result list"

section \<open>RTSPProcessor.process_frame: the sliding frame buffer\<close>

text \<open>
  \<open>preprocess\<close> stands for resize, scaling and the CHW transpose; \<open>None\<close> is an
  exception raised there, which the \<open>try\<close> of \<open>process_frame\<close> swallows before
  anything is appended.
\<close>

definition process_frame ::
  "('raw \<Rightarrow> 'f option) \<Rightarrow> system_settings \<Rightarrow> ('f, 'c) rtsp_processor \<Rightarrow> 'raw \<Rightarrow> ('f, 'c) rtsp_processor" where
  "process_frame preprocess settings self raw =
     (case preprocess raw of
        None \<Rightarrow> self
      | Some frame \<Rightarrow>
          (let buf = frame_buffer self @ [frame];
               current_buffer_size = buffer_size settings
           in if int (length buf) > current_buffer_size
              then self\<lparr>frame_buffer := py_slice_from (- current_buffer_size) buf\<rparr>
              else self\<lparr>frame_buffer := buf\<rparr>))"

text \<open>The capture loop calls \<open>process_frame\<close> once per selected frame.\<close>

definition process_frames ::
  "('raw \<Rightarrow> 'f option) \<Rightarrow> system_settings \<Rightarrow> ('f, 'c) rtsp_processor \<Rightarrow> 'raw list \<Rightarrow> ('f, 'c) rtsp_processor" where
  "process_frames preprocess settings self raws =
     foldl (process_frame preprocess settings) self raws"

section \<open>TritonClient: the inference client\<close>

text \<open>
  The inference server and NumPy's floating-point arithmetic are outside the program;
  this record holds what \<open>TritonClient\<close> uses of them.  \<open>server_reachable\<close> says
  whether \<open>InferenceServerClient(url)\<close> followed by \<open>is_server_ready()\<close> returns
  without an exception; \<open>infer\<close> is the server's answer to a frame stack, an array of
  raw scores of type \<open>'s\<close>, or an exception.  The probability of the violence class
  is an \<open>np.float32\<close>, possibly \<open>nan\<close>, and is not a real number: its values have
  the type \<open>'c\<close>, which is also the type of the Python float that
  \<open>float(violence_prob)\<close> converts it to without change of value.
  \<open>np_softmax_violence\<close> is \<open>probs[0][1]\<close> of
  \<open>probs = exp(prediction) / sum(exp(prediction))\<close> as NumPy computes it in single
  precision; \<open>np_greater\<close> is \<open>violence_prob > threshold\<close> as NumPy evaluates it
  for an \<open>np.float32\<close> and a Python float.  Nothing is assumed of either.
\<close>

record ('f, 's, 'c) inference_server =
  server_reachable :: bool
  infer :: "'f list \<Rightarrow> py_exception + 's"
  np_softmax_violence :: "'s \<Rightarrow> 'c"
  np_greater :: "'c \<Rightarrow> real \<Rightarrow> bool"

definition TritonClient_connect ::
  "('f, 's, 'c) inference_server \<Rightarrow> triton_client \<Rightarrow> bool \<times> triton_client" where
  "TritonClient_connect server self =
     (if server_reachable server then (True, self\<lparr>client := True\<rparr>)
      else (False, self\<lparr>client := False\<rparr>))"

definition TritonClient_init :: "('f, 's, 'c) inference_server \<Rightarrow> triton_client" where
  "TritonClient_init server = snd (TritonClient_connect server \<lparr>client = False\<rparr>)"

text \<open>
  \<open>TritonClient.predict\<close> returns \<open>(is_violence, float(violence_prob))\<close>; every
  exception inside (no client, a failed inference) is caught and gives
  \<open>(False, 0.0)\<close>.
\<close>

definition predict ::
  "('f, 's, 'c::zero) inference_server \<Rightarrow> system_settings \<Rightarrow> triton_client \<Rightarrow> 'f list \<Rightarrow>
   (bool \<times> 'c) \<times> triton_client" where
  "predict server settings self frame_sequence =
     (let (connected, self1) =
            (if client self then (True, self) else TritonClient_connect server self)
      in if \<not> connected then ((False, 0), self1)
         else (case infer server frame_sequence of
                 Inl e \<Rightarrow> ((False, 0), self1)
               | Inr prediction \<Rightarrow>
                   (let violence_prob = np_softmax_violence server prediction;
                        threshold = confidence_threshold settings
                    in ((np_greater server violence_prob threshold, violence_prob), self1))))"

section \<open>RTSPProcessor: detection\<close>

definition RTSPProcessor_init ::
  "system_settings \<Rightarrow> real \<Rightarrow> string \<Rightarrow> string \<Rightarrow> string \<Rightarrow> ('f, 'c) rtsp_processor" where
  "RTSPProcessor_init settings now sid url nm =
     \<lparr>proc_stream_id = sid, rtsp_url = url, name = (if nm = [] then sid else nm),
      triton_client = None, is_running = False, detection_running = False,
      frame_buffer = [], proc_buffer_size = buffer_size settings, fps = 0,
      total_frames = 0, detection_count = 0, last_detection = None,
      proc_start_time = now, results_queue = []\<rparr>"

text \<open>
  \<open>RTSPProcessor.detect_violence\<close>.  The third component of the result is the log of
  the frame windows handed to \<open>TritonClient.predict\<close>, the only place where the
  inference server is called.  \<open>thumbnail\<close> stands for the JPEG and base64 encoding of
  the newest frame, \<open>now\<close> for \<open>time.time()\<close>.  \<open>np.stack\<close> of an empty list raises;
  the \<open>except\<close> branch resets the client and returns \<open>None\<close>.  Saving to the database
  is an external call whose failure is swallowed; the un-awaited coroutine
  \<open>telegram_service.handle_detection(result)\<close> never runs.
\<close>

definition detect_violence ::
  "('f, 's, 'c::zero) inference_server \<Rightarrow> system_settings \<Rightarrow> ('f \<Rightarrow> string) \<Rightarrow> real \<Rightarrow>
   ('f, 'c) rtsp_processor \<Rightarrow> 'f list list \<Rightarrow>
   'c detection_result option \<times> ('f, 'c) rtsp_processor \<times> 'f list list" where
  "detect_violence server settings thumbnail now self calls =
     (let current_buffer_size = buffer_size settings
      in if int (length (frame_buffer self)) < current_buffer_size then (None, self, calls)
         else (let frame_buffer_copy = frame_buffer self
               in if frame_buffer_copy = [] then (None, self\<lparr>triton_client := None\<rparr>, calls)
                  else (let tc = (case triton_client self of
                                    None \<Rightarrow> TritonClient_init server
                                  | Some c \<Rightarrow> c);
                            ((flag, conf), tc1) = predict server settings tc frame_buffer_copy;
                            result = \<lparr>stream_id = proc_stream_id self, timestamp = now,
                                      is_violence = flag, confidence = conf,
                                      frame_data = thumbnail (last frame_buffer_copy)\<rparr>;
                            self1 = self\<lparr>triton_client := Some tc1\<rparr>;
                            self2 = (if flag
                                     then self1\<lparr>detection_count := detection_count self1 + 1,
                                                last_detection := Some result\<rparr>
                                     else self1)
                        in (Some result, self2, calls @ [frame_buffer_copy]))))"

text \<open>One iteration of the \<open>while\<close> loop of \<open>RTSPProcessor.detection_loop\<close>.\<close>

definition detection_loop_iteration ::
  "('f, 's, 'c::zero) inference_server \<Rightarrow> system_settings \<Rightarrow> ('f \<Rightarrow> string) \<Rightarrow> real \<Rightarrow>
   ('f, 'c) rtsp_processor \<Rightarrow> 'f list list \<Rightarrow> ('f, 'c) rtsp_processor \<times> 'f list list" where
  "detection_loop_iteration server settings thumbnail now self calls =
     (let current_buffer_size = buffer_size settings;
          buffer_len = int (length (frame_buffer self))
      in if buffer_len \<ge> current_buffer_size
         then (case detect_violence server settings thumbnail now self calls of
                 (Some result, self1, calls1) \<Rightarrow>
                   (self1\<lparr>results_queue := results_queue self1 @ [result]\<rparr>, calls1)
               | (None, self1, calls1) \<Rightarrow> (self1, calls1))
         else (self, calls))"

section \<open>RTSPProcessor.run_detection_loop: the capture loop\<close>

text \<open>
  Lines 413 to 415: the fps is recomputed from the time between two reads.  The result
  is a sum so that a division by zero would show as \<open>Inl ZeroDivisionError\<close>.
\<close>

definition update_fps :: "real \<Rightarrow> real \<Rightarrow> real \<Rightarrow> py_exception + real" where
  "update_fps old_fps last_time current_time =
     (if current_time - last_time > 0 then py_truediv 1 (current_time - last_time)
      else Inr old_fps)"

datatype loop_control = Continue | Break

text \<open>
  One iteration of the \<open>while\<close> loop of \<open>run_detection_loop\<close>.  \<open>cap_opened\<close> is
  \<open>self.cap is not None and self.cap.isOpened()\<close>, \<open>rd\<close> the outcome of
  \<open>self.cap.read()\<close> (\<open>None\<close> when \<open>ret\<close> is false), \<open>current_time\<close> the clock read
  after it.  The state is the processor and the local \<open>last_time\<close>.  Any exception in
  the body ends the loop.
\<close>

definition capture_iteration ::
  "('raw \<Rightarrow> 'f option) \<Rightarrow> system_settings \<Rightarrow> bool \<Rightarrow> 'raw option \<Rightarrow> real \<Rightarrow>
   ('f, 'c) rtsp_processor \<times> real \<Rightarrow> loop_control \<times> ('f, 'c) rtsp_processor \<times> real" where
  "capture_iteration preprocess settings cap_opened rd current_time st =
     (let self = fst st; last_time = snd st
      in if \<not> cap_opened then (Break, self, last_time)
         else (case rd of
                 None \<Rightarrow> (Break, self, last_time)
               | Some frame \<Rightarrow>
                   (case update_fps (fps self) last_time current_time of
                      Inl e \<Rightarrow> (Break, self, last_time)
                    | Inr new_fps \<Rightarrow>
                        (let self1 = self\<lparr>fps := new_fps\<rparr>
                         in case py_mod (total_frames self1) (frame_skip settings) of
                              Inl e \<Rightarrow> (Break, self1, current_time)
                            | Inr r \<Rightarrow>
                                (let self2 = (if r = 0
                                              then process_frame preprocess settings self1 frame
                                              else self1)
                                 in (Continue, self2\<lparr>total_frames := total_frames self2 + 1\<rparr>,
                                     current_time))))))"

section \<open>RTSPProcessor.get_latest_results and the RTSPManager\<close>

text \<open>
  The \<open>while\<close> loop of \<open>get_latest_results\<close>: the queue is read from its head while it
  is not empty and fewer than \<open>max_results\<close> results have been taken.
\<close>

fun get_latest_results_loop ::
  "nat \<Rightarrow> 'c detection_result list \<Rightarrow> 'c detection_result list \<Rightarrow>
   'c detection_result list \<times> 'c detection_result list" where
  "get_latest_results_loop max_results [] results = (results, [])"
| "get_latest_results_loop max_results (r # queue) results =
     (if length results < max_results
      then get_latest_results_loop max_results queue (results @ [r])
      else (results, r # queue))"

definition get_latest_results ::
  "nat \<Rightarrow> ('f, 'c) rtsp_processor \<Rightarrow> 'c detection_result list \<times> ('f, 'c) rtsp_processor" where
  "get_latest_results max_results self =
     (let (results, queue) = get_latest_results_loop max_results (results_queue self) []
      in (results, self\<lparr>results_queue := queue\<rparr>))"

text \<open>
  \<open>RTSPManager.streams\<close> is a dict; it is kept as an association list in insertion
  order, the order in which \<open>values()\<close> iterates.
\<close>

record ('f, 'c) rtsp_manager =
  streams :: "(string \<times> ('f, 'c) rtsp_processor) list"

definition RTSPManager_init :: "('f, 'c) rtsp_manager" where
  "RTSPManager_init = \<lparr>streams = []\<rparr>"

text \<open>The body of the \<open>try\<close> in \<open>RTSPManager.add_stream\<close>, and the method itself.\<close>

definition add_stream_body ::
  "system_settings \<Rightarrow> real \<Rightarrow> ('f, 'c) rtsp_manager \<Rightarrow> string \<Rightarrow> string \<Rightarrow> string \<Rightarrow>
   py_exception + ('f, 'c) rtsp_manager" where
  "add_stream_body settings now self sid url nm =
     (if sid \<in> set (map fst (streams self))
      then Inl (ValueError (''Stream '' @ sid @ '' already exists''))
      else Inr (self\<lparr>streams := streams self @ [(sid, RTSPProcessor_init settings now sid url nm)]\<rparr>))"

definition add_stream ::
  "system_settings \<Rightarrow> real \<Rightarrow> ('f, 'c) rtsp_manager \<Rightarrow> string \<Rightarrow> string \<Rightarrow> string \<Rightarrow>
   bool \<times> ('f, 'c) rtsp_manager" where
  "add_stream settings now self sid url nm =
     (case add_stream_body settings now self sid url nm of
        Inl e \<Rightarrow> (False, self)
      | Inr self1 \<Rightarrow> (True, self1))"

text \<open>
  The handler of \<open>POST /api/streams\<close>.  The manager is \<open>None\<close> before start-up.  The
  \<open>HTTPException\<close> raised for an unsuccessful add is itself caught by the handler's
  \<open>except Exception\<close> and raised again with \<open>str(e)\<close> as detail; \<open>exc_str\<close> is that
  \<open>str\<close> of an \<open>HTTPException\<close>, which the web framework defines.
\<close>

datatype http_response = JSON_response string | HTTPException nat string

definition api_add_stream ::
  "(nat \<Rightarrow> string \<Rightarrow> string) \<Rightarrow> system_settings \<Rightarrow> real \<Rightarrow> ('f, 'c) rtsp_manager option \<Rightarrow>
   string \<Rightarrow> string \<Rightarrow> string \<Rightarrow> http_response \<times> ('f, 'c) rtsp_manager option" where
  "api_add_stream exc_str settings now manager sid url nm =
     (case manager of
        None \<Rightarrow> (HTTPException 503 ''Service not ready'', None)
      | Some m \<Rightarrow>
          (case add_stream settings now m sid url nm of
             (True, m1) \<Rightarrow> (JSON_response (''Stream '' @ sid @ '' added successfully''), Some m1)
           | (False, m1) \<Rightarrow>
               (HTTPException 400 (exc_str 400 ''Failed to add stream''), Some m1)))"

text \<open>
  \<open>list.sort(key=..., reverse=True)\<close> is a stable sort by descending key: elements
  with equal keys keep their order.
\<close>

definition py_sort_reverse :: "('a \<Rightarrow> real) \<Rightarrow> 'a list \<Rightarrow> 'a list" where
  "py_sort_reverse key xs = sort_key (\<lambda>x. - key x) xs"

text \<open>
  The \<open>for\<close> loop of \<open>RTSPManager.get_latest_detections\<close>, which calls
  \<open>get_latest_results()\<close> with its default \<open>max_results = 10\<close> on every stream.
\<close>

fun get_latest_detections_loop ::
  "(string \<times> ('f, 'c) rtsp_processor) list \<Rightarrow> 'c detection_result list \<Rightarrow>
   'c detection_result list \<times> (string \<times> ('f, 'c) rtsp_processor) list" where
  "get_latest_detections_loop [] all_results = (all_results, [])"
| "get_latest_detections_loop ((sid, stream) # rest) all_results =
     (let (results, stream1) = get_latest_results 10 stream;
          (all_results1, rest1) = get_latest_detections_loop rest (all_results @ results)
      in (all_results1, (sid, stream1) # rest1))"

definition get_latest_detections ::
  "('f, 'c) rtsp_manager \<Rightarrow> 'c detection_result list \<times> ('f, 'c) rtsp_manager" where
  "get_latest_detections self =
     (let (all_results, streams1) = get_latest_detections_loop (streams self) []
      in (py_sort_reverse timestamp all_results, self\<lparr>streams := streams1\<rparr>))"

section \<open>ConnectionManager: the WebSocket subscribers\<close>






section \<open>TelegramService: the notification throttle\<close>

text \<open>
  The dict stored per stream in \<open>violence_events\<close>; its key \<open>'last_detection'\<close> is
  the field \<open>last_detection_time\<close>.
\<close>

record event_info =
  start_time :: real
  last_detection_time :: real
  notification_count :: int
  max_confidence :: real

text \<open>
  \<open>current_detection_confidence\<close> is an attribute that exists only once
  \<open>handle_detection\<close> has run (\<open>hasattr\<close> in the source).
\<close>

record telegram_service =
  bot_token :: string
  chat_id :: string
  enabled :: bool
  notification_interval :: int
  max_notifications :: int
  send_thumbnails :: bool
  last_notification_time :: "string \<rightharpoonup> real"
  violence_events :: "string \<rightharpoonup> event_info"
  current_detection_confidence :: "real option"

definition TelegramService_init :: telegram_service where
  "TelegramService_init =
     \<lparr>bot_token = [], chat_id = [], enabled = False, notification_interval = 300,
      max_notifications = 5, send_thumbnails = True, last_notification_time = Map.empty,
      violence_events = Map.empty, current_detection_confidence = None\<rparr>"

text \<open>
  \<open>class TelegramSettings(BaseModel)\<close> and \<open>TelegramService.update_settings\<close>, by
  which the handler of \<open>POST /api/settings/telegram\<close> replaces the settings of the
  running service; the episodes are not touched.
\<close>

record telegram_settings =
  new_bot_token :: string
  new_chat_id :: string
  new_enabled :: bool
  new_notification_interval :: int
  new_max_notifications :: int
  new_send_thumbnails :: bool

definition update_settings :: "telegram_service \<Rightarrow> telegram_settings \<Rightarrow> telegram_service" where
  "update_settings self settings =
     self\<lparr>bot_token := new_bot_token settings, chat_id := new_chat_id settings,
          enabled := new_enabled settings,
          notification_interval := new_notification_interval settings,
          max_notifications := new_max_notifications settings,
          send_thumbnails := new_send_thumbnails settings\<rparr>"

text \<open>Lines 740 to 744 of \<open>should_send_notification\<close>.\<close>

definition adaptive_interval :: "int \<Rightarrow> int \<Rightarrow> real" where
  "adaptive_interval base_interval sent =
     min (real_of_int base_interval * (1 + real_of_int sent * 0.5)) 1800"

text \<open>
  The outcome of \<open>should_send_notification\<close>: the returned flag, the final
  notification scheduled with \<open>asyncio.create_task\<close> (duration and the closed
  episode), and the service after the call.
\<close>

record send_decision =
  send_now :: bool
  final_notification :: "(int \<times> event_info) option"
  service_after :: telegram_service

definition should_send_notification ::
  "telegram_service \<Rightarrow> string \<Rightarrow> bool \<Rightarrow> real \<Rightarrow> send_decision" where
  "should_send_notification self sid violence current_time =
     (if \<not> violence then
        (case violence_events self sid of
           Some ev \<Rightarrow>
             \<lparr>send_now = False,
              final_notification = Some (py_int (current_time - start_time ev), ev),
              service_after = self\<lparr>last_notification_time := (last_notification_time self)(sid := None),
                                   violence_events := (violence_events self)(sid := None)\<rparr>\<rparr>
         | None \<Rightarrow>
             \<lparr>send_now = False, final_notification = None,
              service_after = self\<lparr>last_notification_time := (last_notification_time self)(sid := None)\<rparr>\<rparr>)
      else
        (case violence_events self sid of
           None \<Rightarrow>
             \<lparr>send_now = True, final_notification = None,
              service_after = self\<lparr>last_notification_time := (last_notification_time self)(sid \<mapsto> current_time),
                                   violence_events := (violence_events self)(sid \<mapsto>
                                     \<lparr>start_time = current_time, last_detection_time = current_time,
                                      notification_count = 0, max_confidence = 0\<rparr>)\<rparr>\<rparr>
         | Some ev0 \<Rightarrow>
             (let ev1 = ev0\<lparr>last_detection_time := current_time\<rparr>;
                  ev2 = (case current_detection_confidence self of
                           None \<Rightarrow> ev1
                         | Some c \<Rightarrow> ev1\<lparr>max_confidence := max (max_confidence ev1) c\<rparr>);
                  last_notification = (case last_notification_time self sid of
                                         None \<Rightarrow> 0
                                       | Some t \<Rightarrow> t);
                  time_since_last = current_time - last_notification;
                  self1 = self\<lparr>violence_events := (violence_events self)(sid \<mapsto> ev2)\<rparr>
              in if notification_count ev2 \<ge> max_notifications self
                 then \<lparr>send_now = False, final_notification = None, service_after = self1\<rparr>
                 else if time_since_last \<ge>
                           adaptive_interval (notification_interval self) (notification_count ev2)
                 then \<lparr>send_now = True, final_notification = None,
                       service_after = self1\<lparr>last_notification_time :=
                                                 (last_notification_time self1)(sid \<mapsto> current_time),
                                              violence_events := (violence_events self1)(sid \<mapsto>
                                                 ev2\<lparr>notification_count := notification_count ev2 + 1\<rparr>)\<rparr>\<rparr>
                 else \<lparr>send_now = False, final_notification = None, service_after = self1\<rparr>)))"

text \<open>
  \<open>TelegramService.handle_detection\<close>: nothing happens while the service is disabled;
  otherwise the confidence of the detection is stored on the service and
  \<open>should_send_notification\<close> decides.  The message is kept as its heading, the
  notification count and the maximal confidence it prints.
\<close>

datatype message_type =
    Violence_Detection_Started | Violence_Continues | Violence_Ongoing | Violence_Detection_Alert

definition handle_detection ::
  "telegram_service \<Rightarrow> real detection_result \<Rightarrow> real \<Rightarrow>
   (message_type \<times> int \<times> real) option \<times> send_decision" where
  "handle_detection self detection current_time =
     (if \<not> enabled self
      then (None, \<lparr>send_now = False, final_notification = None, service_after = self\<rparr>)
      else (let self1 = self\<lparr>current_detection_confidence := Some (confidence detection)\<rparr>;
                d = should_send_notification self1 (stream_id detection) (is_violence detection)
                      current_time
            in if send_now d
               then (case violence_events (service_after d) (stream_id detection) of
                       Some ev \<Rightarrow>
                         (Some (if notification_count ev = 0 then Violence_Detection_Started
                                else if notification_count ev = 1 then Violence_Continues
                                else Violence_Ongoing,
                                notification_count ev, max_confidence ev), d)
                     | None \<Rightarrow> (Some (Violence_Detection_Alert, 0, confidence detection), d))
               else (None, d)))"

text \<open>
  A run of detections handed to the service: each is a stream id, the event flag, the
  confidence and the time of the call.  The result lists the decision after each call.
\<close>

fun detection_run ::
  "telegram_service \<Rightarrow> (string \<times> bool \<times> real \<times> real) list \<Rightarrow> send_decision list" where
  "detection_run self [] = []"
| "detection_run self ((sid, violence, conf, t) # rest) =
     (let d = should_send_notification (self\<lparr>current_detection_confidence := Some conf\<rparr>)
                sid violence t
      in d # detection_run (service_after d) rest)"

text \<open>
  The notification counts of the episode of one stream, read off the service after
  each call of a run (calls after which the stream has no open episode contribute
  nothing).
\<close>

definition notification_counts :: "send_decision list \<Rightarrow> string \<Rightarrow> int list" where
  "notification_counts ds sid =
     List.map_filter (\<lambda>d. map_option notification_count (violence_events (service_after d) sid)) ds"

section \<open>Concrete configurations\<close>

text \<open>
  The defaults of \<open>SystemSettings\<close>; an inference server that is reachable and
  answers every window, with a stand-in for NumPy that gives every answer the
  probability 1/2 and compares probabilities as reals; and a freshly created processor
  over frames that are plain numbers.  They serve to evaluate the model on examples.
\<close>

definition default_settings :: system_settings where
  "default_settings = \<lparr>frame_skip = 3, confidence_threshold = 0.7, buffer_size = 16\<rparr>"

definition idle_server :: "(nat, unit, real) inference_server" where
  "idle_server = \<lparr>server_reachable = True, infer = (\<lambda>frames. Inr ()),
     np_softmax_violence = (\<lambda>prediction. 1 / 2), np_greater = (\<lambda>p t. t < p)\<rparr>"

definition cam1 :: "(nat, real) rtsp_processor" where
  "cam1 = RTSPProcessor_init default_settings 0 ''cam1'' ''rtsp://cam1'' ''''"

text \<open>
  Services for the notification examples: the default service for which every further
  detection is due at once (\<open>notification_interval = 0\<close>), seven further event
  detections on one stream, the service after the episode has reached the default cap
  of five notifications, settings that lower the cap to 1 and to -1, and the default
  service with an episode just opened at time 1000.
\<close>

definition eager_service :: telegram_service where
  "eager_service = TelegramService_init\<lparr>enabled := True, notification_interval := 0\<rparr>"

definition cam1_events :: "(string \<times> bool \<times> real \<times> real) list" where
  "cam1_events = [(''cam1'', True, 0.8, 1), (''cam1'', True, 0.8, 2), (''cam1'', True, 0.8, 3),
     (''cam1'', True, 0.8, 4), (''cam1'', True, 0.8, 5), (''cam1'', True, 0.8, 6),
     (''cam1'', True, 0.8, 7)]"

definition cam1_capped :: telegram_service where
  "cam1_capped =
     service_after (last (detection_run eager_service ((''cam1'', True, 0.8, 0) # take 5 cam1_events)))"

definition lowered_cap :: telegram_settings where
  "lowered_cap = \<lparr>new_bot_token = [], new_chat_id = [], new_enabled = True,
     new_notification_interval = 0, new_max_notifications = 1, new_send_thumbnails = True\<rparr>"

definition negative_cap :: telegram_settings where
  "negative_cap = lowered_cap\<lparr>new_max_notifications := - 1\<rparr>"

definition cam1_episode :: telegram_service where
  "cam1_episode = service_after (should_send_notification TelegramService_init ''cam1'' True 1000)"

text \<open>
  Managers for the registry examples: one stream with eleven pending results, two
  streams with two pending results each, and a manager to which \<open>cam1\<close> was added.
\<close>

definition detection_at :: "real \<Rightarrow> real detection_result" where
  "detection_at t = \<lparr>stream_id = ''cam1'', timestamp = t, is_violence = False,
     confidence = 0.5, frame_data = []\<rparr>"

definition cam1_backlog :: "(nat, real) rtsp_manager" where
  "cam1_backlog = \<lparr>streams = [(''cam1'',
      cam1\<lparr>results_queue := map detection_at [1, 2, 3, 4, 5, 6, 7, 8, 9, 10, 11]\<rparr>)]\<rparr>"

definition two_cameras :: "(nat, real) rtsp_manager" where
  "two_cameras = \<lparr>streams =
     [(''cam1'', cam1\<lparr>results_queue := [detection_at 1, detection_at 4]\<rparr>),
      (''cam2'', cam1\<lparr>proc_stream_id := ''cam2'', results_queue := [detection_at 2, detection_at 3]\<rparr>)]\<rparr>"

definition one_camera :: "(nat, real) rtsp_manager" where
  "one_camera =
     snd (add_stream default_settings 0 RTSPManager_init ''cam1'' ''rtsp://cam1'' ''Front door'')"

section \<open>Properties of the frame buffer\<close>

lemma py_slice_from_neg:
  "1 \<le> c \<Longrightarrow> py_slice_from (- c) xs = drop (length xs - nat c) xs"
  by (simp add: py_slice_from_def nat_diff_distrib')

lemma process_frame_buffer:
  assumes "1 \<le> buffer_size settings"
  shows "frame_buffer (process_frame preprocess settings self raw) =
     (case preprocess raw of
        None \<Rightarrow> frame_buffer self
      | Some frame \<Rightarrow> drop (Suc (length (frame_buffer self)) - nat (buffer_size settings))
                       (frame_buffer self @ [frame]))"
  using assms
  by (auto simp: process_frame_def Let_def py_slice_from_neg split: option.splits)

lemma process_frames_snoc:
  "process_frames preprocess settings self (raws @ [raw]) =
     process_frame preprocess settings (process_frames preprocess settings self raws) raw"
  by (simp add: process_frames_def)

lemma map_filter_snoc:
  "List.map_filter f (xs @ [x]) =
     List.map_filter f xs @ (case f x of None \<Rightarrow> [] | Some y \<Rightarrow> [y])"
  by (simp add: List.map_filter_def split: option.splits)

lemma drop_last_window:
  assumes "0 < c"
  shows "drop (Suc (length (drop (length xs - c) xs)) - c) (drop (length xs - c) xs @ [y]) =
         drop (Suc (length xs) - c) (xs @ [y])"
proof (cases "length xs \<le> c")
  case True
  then show ?thesis by simp
next
  case False
  then have c: "c < length xs" by simp
  then have len: "length (drop (length xs - c) xs) = c" by simp
  have "Suc c - c = Suc 0" by simp
  moreover have "Suc (length xs) - c = Suc (length xs - c)" using c by simp
  ultimately show ?thesis using c assms
    by (simp add: len)
qed

lemma process_frames_buffer:
  assumes cap: "1 \<le> buffer_size settings"
    and start: "int (length (frame_buffer self)) \<le> buffer_size settings"
  shows "frame_buffer (process_frames preprocess settings self raws) =
     drop (length (frame_buffer self @ List.map_filter preprocess raws) - nat (buffer_size settings))
          (frame_buffer self @ List.map_filter preprocess raws)"
proof (induction raws rule: rev_induct)
  case Nil
  from start show ?case
    by (simp add: process_frames_def List.map_filter_def)
next
  case (snoc raw raws)
  define c where "c = nat (buffer_size settings)"
  define pushed where "pushed = frame_buffer self @ List.map_filter preprocess raws"
  have c: "0 < c" using cap by (simp add: c_def)
  have IH: "frame_buffer (process_frames preprocess settings self raws) =
      drop (length pushed - c) pushed"
    using snoc by (simp add: c_def pushed_def)
  show ?case
  proof (cases "preprocess raw")
    case None
    with IH show ?thesis
      by (simp add: process_frames_snoc process_frame_buffer [OF cap] map_filter_snoc
          c_def pushed_def)
  next
    case (Some frame)
    have "frame_buffer (process_frames preprocess settings self (raws @ [raw])) =
        drop (Suc (length (drop (length pushed - c) pushed)) - c)
             (drop (length pushed - c) pushed @ [frame])"
      using Some IH
      by (simp add: process_frames_snoc process_frame_buffer [OF cap] c_def)
    also have "\<dots> = drop (Suc (length pushed) - c) (pushed @ [frame])"
      by (rule drop_last_window [OF c])
    finally show ?thesis
      using Some by (simp add: map_filter_snoc c_def pushed_def)
  qed
qed

lemma process_frames_length_le:
  assumes "1 \<le> buffer_size settings"
    and "int (length (frame_buffer self)) \<le> buffer_size settings"
  shows "int (length (frame_buffer (process_frames preprocess settings self raws)))
           \<le> buffer_size settings"
proof -
  have "length (frame_buffer (process_frames preprocess settings self raws))
          \<le> nat (buffer_size settings)"
    unfolding process_frames_buffer [OF assms] by simp
  with assms(1) show ?thesis by simp
qed

text \<open>
  The sliding window for capacities of at least 1.  For every sequence of frames handed
  to \<open>process_frame\<close>, starting from a buffer that is within the capacity (it is
  empty after \<open>start\<close>): the buffer never holds more than \<open>buffer_size\<close> frames,
  and once at least \<open>buffer_size\<close> frames have been pushed it holds exactly the most
  recent \<open>buffer_size\<close> of them, in arrival order.  The pushed frames are those whose
  preprocessing did not raise.
\<close>

theorem frame_buffer_sliding_window:
  assumes "1 \<le> buffer_size settings"
    and "int (length (frame_buffer self)) \<le> buffer_size settings"
  shows "int (length (frame_buffer (process_frames preprocess settings self raws)))
           \<le> buffer_size settings \<and>
     (buffer_size settings \<le> int (length (List.map_filter preprocess raws)) \<longrightarrow>
        frame_buffer (process_frames preprocess settings self raws) =
          drop (length (List.map_filter preprocess raws) - nat (buffer_size settings))
               (List.map_filter preprocess raws))"
proof -
  define c where "c = nat (buffer_size settings)"
  define pushed where "pushed = List.map_filter preprocess raws"
  have c: "0 < c" "buffer_size settings = int c" "length (frame_buffer self) \<le> c"
    using assms by (simp_all add: c_def)
  have buf: "frame_buffer (process_frames preprocess settings self raws) =
      drop (length (frame_buffer self @ pushed) - c) (frame_buffer self @ pushed)"
    unfolding c_def pushed_def by (rule process_frames_buffer [OF assms])
  have "length (frame_buffer (process_frames preprocess settings self raws)) \<le> c"
    unfolding buf by simp
  moreover have "frame_buffer (process_frames preprocess settings self raws) =
      drop (length pushed - c) pushed" if "c \<le> length pushed"
    unfolding buf using that by simp
  ultimately show ?thesis
    by (simp add: c pushed_def)
qed

theorem frame_buffer_sliding_window_witness:
  "1 \<le> buffer_size (default_settings\<lparr>buffer_size := 2\<rparr>) \<and>
   int (length (frame_buffer cam1)) \<le> buffer_size (default_settings\<lparr>buffer_size := 2\<rparr>) \<and>
   buffer_size (default_settings\<lparr>buffer_size := 2\<rparr>)
     \<le> int (length (List.map_filter Some [1, 2, 3 :: nat])) \<and>
   frame_buffer (process_frames Some (default_settings\<lparr>buffer_size := 2\<rparr>) cam1 [1, 2, 3])
     = [2, 3]"
proof -
  have h1: "1 \<le> buffer_size (default_settings\<lparr>buffer_size := 2\<rparr>)"
    by (simp add: default_settings_def)
  have h2: "int (length (frame_buffer cam1)) \<le> buffer_size (default_settings\<lparr>buffer_size := 2\<rparr>)"
    by (simp add: default_settings_def cam1_def RTSPProcessor_init_def)
  have h3: "buffer_size (default_settings\<lparr>buffer_size := 2\<rparr>)
     \<le> int (length (List.map_filter Some [1, 2, 3 :: nat]))"
    by (simp add: default_settings_def List.map_filter_def)
  from frame_buffer_sliding_window [OF h1 h2, of Some "[1, 2, 3]"] h1 h2 h3
  show ?thesis
    by (simp add: List.map_filter_def)
qed

text \<open>
  With a configured capacity of 0 the guard \<open>len(frame_buffer) > 0\<close> holds after every
  append, but the trim \<open>frame_buffer[-0:]\<close> is the whole list: nothing is ever
  dropped.
\<close>

lemma process_frames_zero_capacity:
  assumes "buffer_size settings = 0"
  shows "frame_buffer (process_frames preprocess settings self raws) =
     frame_buffer self @ List.map_filter preprocess raws"
proof (induction raws rule: rev_induct)
  case Nil
  show ?case by (simp add: process_frames_def List.map_filter_def)
next
  case (snoc raw raws)
  with assms show ?case
    by (simp add: process_frames_snoc map_filter_snoc process_frame_def py_slice_from_def
        Let_def split: option.splits)
qed

text \<open>
  C4.  The buffer is meant never to hold more frames than the configured capacity.
  Evaluated for \<open>buffer_size = 0\<close>, a value the settings accept: after one push
  into the empty buffer the length is 1, above the capacity, and after three pushes
  all three frames are still there.
\<close>

theorem frame_buffer_exceeds_zero_capacity:
  "\<not> int (length (frame_buffer (process_frames Some (default_settings\<lparr>buffer_size := 0\<rparr>)
      cam1 [1 :: nat]))) \<le> buffer_size (default_settings\<lparr>buffer_size := 0\<rparr>) \<and>
   frame_buffer (process_frames Some (default_settings\<lparr>buffer_size := 0\<rparr>) cam1 [1, 2, 3 :: nat])
     = [1, 2, 3]"
  by (simp add: process_frames_def process_frame_def py_slice_from_def cam1_def
      RTSPProcessor_init_def default_settings_def)

section \<open>Properties of the detection loop\<close>

lemma detection_loop_iteration_calls:
  "snd (detection_loop_iteration server settings thumbnail now self calls) =
     (if buffer_size settings \<le> int (length (frame_buffer self)) \<and> frame_buffer self \<noteq> []
      then calls @ [frame_buffer self] else calls)"
  by (auto simp: detection_loop_iteration_def detect_violence_def Let_def
      split: prod.splits option.splits)

lemma detection_loop_iteration_idle:
  "int (length (frame_buffer self)) < buffer_size settings \<Longrightarrow>
   detection_loop_iteration server settings thumbnail now self calls = (self, calls)"
  by (simp add: detection_loop_iteration_def)

lemma detect_violence_idle:
  "int (length (frame_buffer self)) < buffer_size settings \<Longrightarrow>
   detect_violence server settings thumbnail now self calls = (None, self, calls)"
  by (simp add: detect_violence_def)

text \<open>
  C3, as amended.  In one iteration of the detection loop the inference client is
  called at most once, on the whole buffer, and only when the buffer holds at least
  \<open>buffer_size\<close> frames; when it holds fewer, the iteration changes nothing: no call
  is made, \<open>detect_violence\<close> returns \<open>None\<close> and no result is queued.  For a buffer
  filled by \<open>process_frame\<close> under the same capacity of at least 1, a call happens
  only at a length equal to the capacity.
\<close>

theorem detection_fires_only_on_full_buffer:
  "(snd (detection_loop_iteration server settings thumbnail now self calls) = calls \<or>
    snd (detection_loop_iteration server settings thumbnail now self calls)
      = calls @ [frame_buffer self] \<and>
    buffer_size settings \<le> int (length (frame_buffer self))) \<and>
   (int (length (frame_buffer self)) < buffer_size settings \<longrightarrow>
      detection_loop_iteration server settings thumbnail now self calls = (self, calls) \<and>
      detect_violence server settings thumbnail now self calls = (None, self, calls)) \<and>
   (1 \<le> buffer_size settings \<and> int (length (frame_buffer self0)) \<le> buffer_size settings \<and>
    snd (detection_loop_iteration server settings thumbnail now
           (process_frames preprocess settings self0 raws) calls) \<noteq> calls \<longrightarrow>
      int (length (frame_buffer (process_frames preprocess settings self0 raws)))
        = buffer_size settings)"
proof (intro conjI impI)
  show "snd (detection_loop_iteration server settings thumbnail now self calls) = calls \<or>
    snd (detection_loop_iteration server settings thumbnail now self calls)
      = calls @ [frame_buffer self] \<and>
    buffer_size settings \<le> int (length (frame_buffer self))"
    by (simp add: detection_loop_iteration_calls)
next
  assume "int (length (frame_buffer self)) < buffer_size settings"
  then show "detection_loop_iteration server settings thumbnail now self calls = (self, calls)"
    and "detect_violence server settings thumbnail now self calls = (None, self, calls)"
    by (rule detection_loop_iteration_idle, rule detect_violence_idle)
next
  let ?P = "process_frames preprocess settings self0 raws"
  assume a: "1 \<le> buffer_size settings \<and> int (length (frame_buffer self0)) \<le> buffer_size settings \<and>
    snd (detection_loop_iteration server settings thumbnail now ?P calls) \<noteq> calls"
  then have "int (length (frame_buffer ?P)) \<le> buffer_size settings"
    by (simp add: process_frames_length_le)
  moreover from a have "buffer_size settings \<le> int (length (frame_buffer ?P))"
    by (simp add: detection_loop_iteration_calls split: if_splits)
  ultimately show "int (length (frame_buffer ?P)) = buffer_size settings"
    by simp
qed

theorem detection_fires_only_on_full_buffer_witness:
  "int (length (frame_buffer (process_frames Some (default_settings\<lparr>buffer_size := 2\<rparr>) cam1 [1])))
     < buffer_size (default_settings\<lparr>buffer_size := 2\<rparr>) \<and>
   detection_loop_iteration idle_server (default_settings\<lparr>buffer_size := 2\<rparr>) (\<lambda>f. []) 5
      (process_frames Some (default_settings\<lparr>buffer_size := 2\<rparr>) cam1 [1]) []
     = (process_frames Some (default_settings\<lparr>buffer_size := 2\<rparr>) cam1 [1], []) \<and>
   1 \<le> buffer_size (default_settings\<lparr>buffer_size := 2\<rparr>) \<and>
   int (length (frame_buffer cam1)) \<le> buffer_size (default_settings\<lparr>buffer_size := 2\<rparr>) \<and>
   snd (detection_loop_iteration idle_server (default_settings\<lparr>buffer_size := 2\<rparr>) (\<lambda>f. []) 5
      (process_frames Some (default_settings\<lparr>buffer_size := 2\<rparr>) cam1 [1, 2, 3]) []) \<noteq> [] \<and>
   int (length (frame_buffer (process_frames Some (default_settings\<lparr>buffer_size := 2\<rparr>) cam1 [1, 2, 3])))
     = buffer_size (default_settings\<lparr>buffer_size := 2\<rparr>)"
proof -
  let ?S = "default_settings\<lparr>buffer_size := 2\<rparr>"
  have h1: "int (length (frame_buffer (process_frames Some ?S cam1 [1]))) < buffer_size ?S"
    by (simp add: process_frames_def process_frame_def py_slice_from_def cam1_def
        RTSPProcessor_init_def default_settings_def)
  have h2: "1 \<le> buffer_size ?S" "int (length (frame_buffer cam1)) \<le> buffer_size ?S"
    by (simp_all add: default_settings_def cam1_def RTSPProcessor_init_def)
  have h3: "snd (detection_loop_iteration idle_server ?S (\<lambda>f. []) 5
      (process_frames Some ?S cam1 [1, 2, 3]) []) \<noteq> []"
    by (simp add: detection_loop_iteration_def detect_violence_def predict_def
        TritonClient_init_def TritonClient_connect_def
        process_frames_def process_frame_def py_slice_from_def cam1_def
        RTSPProcessor_init_def default_settings_def idle_server_def Let_def)
  from detection_fires_only_on_full_buffer [where server = idle_server and settings = ?S
      and thumbnail = "\<lambda>f. []" and now = 5 and self = "process_frames Some ?S cam1 [1]"
      and calls = "[]" and ?self0.0 = cam1 and preprocess = Some and raws = "[1, 2, 3]"]
    h1 h2 h3
  show ?thesis by simp
qed

text \<open>
  A buffer filled while \<open>buffer_size\<close> was 3 and polled after the setting was lowered
  to 2: the client is called on three frames, although the capacity is 2.
\<close>

theorem detection_on_overfull_buffer_counterexample:
  "snd (detection_loop_iteration idle_server (default_settings\<lparr>buffer_size := 2\<rparr>) (\<lambda>f. []) 5
      (process_frames Some (default_settings\<lparr>buffer_size := 3\<rparr>) cam1 [1, 2, 3]) []) = [[1, 2, 3]] \<and>
   int (length (frame_buffer (process_frames Some (default_settings\<lparr>buffer_size := 3\<rparr>) cam1 [1, 2, 3])))
     \<noteq> buffer_size (default_settings\<lparr>buffer_size := 2\<rparr>)"
  by (simp add: detection_loop_iteration_def detect_violence_def predict_def
      TritonClient_init_def TritonClient_connect_def
      process_frames_def process_frame_def py_slice_from_def cam1_def
      RTSPProcessor_init_def default_settings_def idle_server_def Let_def)

section \<open>Properties of the inference client\<close>

text \<open>
  Whenever the inference server answers, the event flag that \<open>predict\<close> returns is
  the outcome of NumPy's comparison of the probability with the configured threshold,
  and the returned confidence is that probability; on every other path the result is
  \<open>(False, 0.0)\<close>.
\<close>

lemma predict_success:
  assumes "client self \<or> server_reachable server"
    and "infer server frames = Inr prediction"
  shows "fst (predict server settings self frames) =
     (np_greater server (np_softmax_violence server prediction) (confidence_threshold settings),
      np_softmax_violence server prediction)"
  using assms
  by (auto simp: predict_def TritonClient_connect_def Let_def split: prod.splits)

lemma predict_failure:
  assumes "\<not> client self \<and> \<not> server_reachable server \<or> infer server frames = Inl e"
  shows "fst (predict server settings self frames) = (False, 0)"
  using assms
  by (auto simp: predict_def TritonClient_connect_def Let_def split: prod.splits)

section \<open>Properties of the capture loop\<close>

lemma update_fps_value:
  "update_fps old_fps last_time current_time =
     Inr (if current_time - last_time > 0 then 1 / (current_time - last_time) else old_fps)"
  by (simp add: update_fps_def py_truediv_def)

lemma process_frame_fps [simp]:
  "fps (process_frame preprocess settings self raw) = fps self"
  by (simp add: process_frame_def Let_def split: option.splits)

lemma capture_iteration_fps:
  "fps (fst (snd (capture_iteration preprocess settings True (Some frame) current_time
       (self, last_time)))) =
     (if current_time - last_time > 0 then 1 / (current_time - last_time) else fps self)"
  by (simp add: capture_iteration_def update_fps_value Let_def py_mod_def)

lemma capture_iteration_continue:
  "frame_skip settings \<noteq> 0 \<Longrightarrow>
   fst (capture_iteration preprocess settings True (Some frame) current_time (self, last_time))
     = Continue"
  by (simp add: capture_iteration_def update_fps_value Let_def py_mod_def)

text \<open>
  C10.  The fps is recomputed as \<open>1 / (current_time - last_time)\<close> only when
  \<open>current_time - last_time > 0\<close>: the update never raises ZeroDivisionError, and
  when two consecutive reads carry the same timestamp the stored fps is kept.  The same
  holds for the whole loop iteration, which with a non-zero \<open>frame_skip\<close> always
  continues.
\<close>

theorem fps_update_guarded:
  "update_fps old_fps last_time current_time \<noteq> Inl ZeroDivisionError \<and>
   update_fps old_fps last_time current_time =
     Inr (if current_time - last_time > 0 then 1 / (current_time - last_time) else old_fps) \<and>
   update_fps old_fps current_time current_time = Inr old_fps \<and>
   fps (fst (snd (capture_iteration preprocess settings True (Some frame) current_time
       (self, last_time)))) =
     (if current_time - last_time > 0 then 1 / (current_time - last_time) else fps self) \<and>
   fps (fst (snd (capture_iteration preprocess settings True (Some frame) current_time
       (self, current_time)))) = fps self \<and>
   (frame_skip settings \<noteq> 0 \<longrightarrow>
      fst (capture_iteration preprocess settings True (Some frame) current_time (self, last_time))
        = Continue)"
  by (simp add: update_fps_value capture_iteration_fps capture_iteration_continue)

theorem fps_update_guarded_witness:
  "frame_skip default_settings \<noteq> 0 \<and>
   fst (capture_iteration Some default_settings True (Some 7) 12 (cam1\<lparr>fps := 25\<rparr>, 12)) = Continue \<and>
   fps (fst (snd (capture_iteration Some default_settings True (Some 7) 12 (cam1\<lparr>fps := 25\<rparr>, 12))))
     = 25 \<and>
   fps (fst (snd (capture_iteration Some default_settings True (Some 7) 12 (cam1\<lparr>fps := 25\<rparr>, 11.5))))
     = 2"
proof -
  have h: "frame_skip default_settings \<noteq> 0"
    by (simp add: default_settings_def)
  from fps_update_guarded [where settings = default_settings and preprocess = Some
      and frame = 7 and current_time = 12 and last_time = 12 and self = "cam1\<lparr>fps := 25\<rparr>"]
    fps_update_guarded [where settings = default_settings and preprocess = Some
      and frame = 7 and current_time = 12 and last_time = "11.5" and self = "cam1\<lparr>fps := 25\<rparr>"] h
  show ?thesis by simp
qed

section \<open>Properties of the notification throttle\<close>

lemma should_send_open_episode:
  assumes "violence_events self sid = None"
  shows "should_send_notification self sid True now =
     \<lparr>send_now = True, final_notification = None,
      service_after = self\<lparr>last_notification_time := (last_notification_time self)(sid \<mapsto> now),
                           violence_events := (violence_events self)(sid \<mapsto>
                             \<lparr>start_time = now, last_detection_time = now,
                              notification_count = 0, max_confidence = 0\<rparr>)\<rparr>\<rparr>"
  using assms by (simp add: should_send_notification_def)

lemma should_send_continuing:
  assumes "violence_events self sid = Some ev"
  shows "\<exists>ev'. violence_events (service_after (should_send_notification self sid True now)) sid = Some ev' \<and>
     start_time ev' = start_time ev \<and>
     notification_count ev' =
       (if send_now (should_send_notification self sid True now)
        then notification_count ev + 1 else notification_count ev) \<and>
     last_notification_time (service_after (should_send_notification self sid True now)) sid =
       (if send_now (should_send_notification self sid True now)
        then Some now else last_notification_time self sid) \<and>
     send_now (should_send_notification self sid True now) =
       (notification_count ev < max_notifications self \<and>
        adaptive_interval (notification_interval self) (notification_count ev)
          \<le> now - (case last_notification_time self sid of None \<Rightarrow> 0 | Some t \<Rightarrow> t))"
  using assms
  by (auto simp: should_send_notification_def Let_def split: option.splits)

lemma should_send_other_stream:
  "sid' \<noteq> sid \<Longrightarrow>
   violence_events (service_after (should_send_notification self sid' violence now)) sid
     = violence_events self sid"
  by (simp add: should_send_notification_def Let_def split: option.splits)

lemma should_send_max_notifications [simp]:
  "max_notifications (service_after (should_send_notification self sid violence now))
     = max_notifications self"
  by (simp add: should_send_notification_def Let_def split: option.splits)

lemma should_send_confidence_irrelevant [simp]:
  "violence_events (self\<lparr>current_detection_confidence := c\<rparr>) = violence_events self"
  "max_notifications (self\<lparr>current_detection_confidence := c\<rparr>) = max_notifications self"
  by simp_all

lemma notification_counts_Cons:
  "notification_counts (d # ds) sid =
     (case violence_events (service_after d) sid of
        None \<Rightarrow> notification_counts ds sid
      | Some ev \<Rightarrow> notification_count ev # notification_counts ds sid)"
  by (simp add: notification_counts_def List.map_filter_def split: option.splits)

lemma episode_step:
  assumes "violence_events self sid = Some ev"
    and "notification_count ev \<le> max_notifications self"
    and "sid' = sid \<longrightarrow> violence"
  shows "\<exists>ev'. violence_events (service_after (should_send_notification self sid' violence now)) sid
        = Some ev' \<and>
      notification_count ev \<le> notification_count ev' \<and>
      notification_count ev' \<le> max_notifications self"
proof (cases "sid' = sid")
  case True
  with assms(3) have v: "violence" by simp
  from should_send_continuing [OF assms(1), of now] assms(2) True v
  show ?thesis by (auto split: if_splits)
next
  case False
  with assms(1,2) show ?thesis
    by (simp add: should_send_other_stream)
qed

lemma episode_run:
  assumes "violence_events self sid = Some ev"
    and "notification_count ev \<le> max_notifications self"
    and "\<forall>e \<in> set evs. fst e = sid \<longrightarrow> fst (snd e)"
  shows "length (notification_counts (detection_run self evs) sid) = length evs \<and>
     sorted (notification_count ev # notification_counts (detection_run self evs) sid) \<and>
     (\<forall>n \<in> set (notification_counts (detection_run self evs) sid). n \<le> max_notifications self)"
  using assms
proof (induction evs arbitrary: self ev)
  case Nil
  then show ?case by (simp add: notification_counts_def List.map_filter_def)
next
  case (Cons e evs)
  obtain sid' violence conf t where e: "e = (sid', violence, conf, t)"
    by (cases e) auto
  let ?self = "self\<lparr>current_detection_confidence := Some conf\<rparr>"
  let ?d = "should_send_notification ?self sid' violence t"
  have "violence_events ?self sid = Some ev" "notification_count ev \<le> max_notifications ?self"
    using Cons.prems(1,2) by simp_all
  moreover have "sid' = sid \<longrightarrow> violence"
    using Cons.prems(3) e by simp
  ultimately obtain ev' where ev':
    "violence_events (service_after ?d) sid = Some ev'"
    "notification_count ev \<le> notification_count ev'"
    "notification_count ev' \<le> max_notifications self"
    using episode_step [of ?self sid ev sid' violence t] by auto
  have "notification_count ev' \<le> max_notifications (service_after ?d)"
    using ev'(3) by simp
  moreover have "\<forall>e \<in> set evs. fst e = sid \<longrightarrow> fst (snd e)"
    using Cons.prems(3) by simp
  ultimately have IH:
    "length (notification_counts (detection_run (service_after ?d) evs) sid) = length evs"
    "sorted (notification_count ev' # notification_counts (detection_run (service_after ?d) evs) sid)"
    "\<forall>n \<in> set (notification_counts (detection_run (service_after ?d) evs) sid).
        n \<le> max_notifications self"
    using Cons.IH [OF ev'(1)] by simp_all
  have run: "detection_run self (e # evs) = ?d # detection_run (service_after ?d) evs"
    by (simp add: e Let_def)
  show ?case
    unfolding run notification_counts_Cons using ev' IH by auto
qed

lemma episode_step_mono:
  assumes "violence_events self sid = Some ev"
    and "sid' = sid \<longrightarrow> violence"
  shows "\<exists>ev'. violence_events (service_after (should_send_notification self sid' violence now)) sid
        = Some ev' \<and>
      notification_count ev \<le> notification_count ev'"
proof (cases "sid' = sid")
  case True
  with assms(2) have v: "violence" by simp
  from should_send_continuing [OF assms(1), of now] True v
  show ?thesis by (auto split: if_splits)
next
  case False
  with assms(1) show ?thesis
    by (simp add: should_send_other_stream)
qed

lemma episode_run_mono:
  assumes "violence_events self sid = Some ev"
    and "\<forall>e \<in> set evs. fst e = sid \<longrightarrow> fst (snd e)"
  shows "length (notification_counts (detection_run self evs) sid) = length evs \<and>
     sorted (notification_count ev # notification_counts (detection_run self evs) sid)"
  using assms
proof (induction evs arbitrary: self ev)
  case Nil
  then show ?case by (simp add: notification_counts_def List.map_filter_def)
next
  case (Cons e evs)
  obtain sid' violence conf t where e: "e = (sid', violence, conf, t)"
    by (cases e) auto
  let ?self = "self\<lparr>current_detection_confidence := Some conf\<rparr>"
  let ?d = "should_send_notification ?self sid' violence t"
  have "violence_events ?self sid = Some ev"
    using Cons.prems(1) by simp
  moreover have "sid' = sid \<longrightarrow> violence"
    using Cons.prems(2) e by simp
  ultimately obtain ev' where ev':
    "violence_events (service_after ?d) sid = Some ev'"
    "notification_count ev \<le> notification_count ev'"
    using episode_step_mono [of ?self sid ev sid' violence t] by auto
  have "\<forall>e \<in> set evs. fst e = sid \<longrightarrow> fst (snd e)"
    using Cons.prems(2) by simp
  then have IH:
    "length (notification_counts (detection_run (service_after ?d) evs) sid) = length evs"
    "sorted (notification_count ev' # notification_counts (detection_run (service_after ?d) evs) sid)"
    using Cons.IH [OF ev'(1)] by simp_all
  have run: "detection_run self (e # evs) = ?d # detection_run (service_after ?d) evs"
    by (simp add: e Let_def)
  show ?case
    unfolding run notification_counts_Cons using ev' IH by auto
qed

lemma update_settings_violence_events:
  "violence_events (update_settings self settings) = violence_events self"
  by (simp add: update_settings_def)

lemma capped_run:
  assumes "violence_events self sid = Some ev"
    and "max_notifications self \<le> notification_count ev"
    and "\<forall>e \<in> set evs. fst e = sid \<and> fst (snd e)"
  shows "\<forall>d \<in> set (detection_run self evs). \<not> send_now d \<and>
     map_option notification_count (violence_events (service_after d) sid)
       = Some (notification_count ev)"
  using assms
proof (induction evs arbitrary: self ev)
  case Nil
  then show ?case by simp
next
  case (Cons e evs)
  obtain conf t where e: "e = (sid, True, conf, t)"
    using Cons.prems(3) by (cases e) auto
  let ?self = "self\<lparr>current_detection_confidence := Some conf\<rparr>"
  let ?d = "should_send_notification ?self sid True t"
  have open_ev: "violence_events ?self sid = Some ev"
    using Cons.prems(1) by simp
  from should_send_continuing [OF open_ev, of t] Cons.prems(2)
  obtain ev' where ev':
    "violence_events (service_after ?d) sid = Some ev'"
    "notification_count ev' = notification_count ev" "\<not> send_now ?d"
    by (auto split: if_splits)
  have "max_notifications (service_after ?d) \<le> notification_count ev'"
    using ev'(2) Cons.prems(2) by simp
  moreover have "\<forall>e \<in> set evs. fst e = sid \<and> fst (snd e)"
    using Cons.prems(3) by simp
  ultimately have IH: "\<forall>d \<in> set (detection_run (service_after ?d) evs). \<not> send_now d \<and>
     map_option notification_count (violence_events (service_after d) sid)
       = Some (notification_count ev')"
    using Cons.IH [OF ev'(1)] by blast
  have run: "detection_run self (e # evs) = ?d # detection_run (service_after ?d) evs"
    by (simp add: e Let_def)
  show ?case
    unfolding run using ev' IH by simp
qed

text \<open>
  C1.  An event detection for a stream without an open episode opens an episode with
  \<open>start_time\<close> the current time and \<open>notification_count\<close> 0 and returns a
  positive decision (lemma \<open>should_send_open_episode\<close>), but the episode's
  \<open>max_confidence\<close> is set to 0.0 and not to the confidence of the detection.
  Evaluated on the freshly created service: a detection of confidence 0.8 at time 1000
  opens an episode with \<open>max_confidence = 0\<close>, and the message of
  \<open>handle_detection\<close> reports that 0; after detections with confidence 0.9 and then
  0.5, the final notification of the episode reports a maximum of 0.5.
\<close>

theorem new_episode_max_confidence_zero:
  "send_now (should_send_notification
      (TelegramService_init\<lparr>current_detection_confidence := Some 0.8\<rparr>) ''cam1'' True 1000) \<and>
   violence_events (service_after (should_send_notification
      (TelegramService_init\<lparr>current_detection_confidence := Some 0.8\<rparr>) ''cam1'' True 1000)) ''cam1''
     = Some \<lparr>start_time = 1000, last_detection_time = 1000, notification_count = 0,
             max_confidence = 0\<rparr> \<and>
   fst (handle_detection (TelegramService_init\<lparr>enabled := True\<rparr>)
      \<lparr>stream_id = ''cam1'', timestamp = 1000, is_violence = True, confidence = 0.8,
       frame_data = []\<rparr> 1000) = Some (Violence_Detection_Started, 0, 0) \<and>
   final_notification (last (detection_run TelegramService_init
      [(''cam1'', True, 0.9, 0), (''cam1'', True, 0.5, 1), (''cam1'', False, 0.1, 2)]))
     = Some (2, \<lparr>start_time = 0, last_detection_time = 1, notification_count = 0,
                 max_confidence = 0.5\<rparr>)"
  by code_simp

text \<open>
  C6.  For an open episode and a further event detection that the cap does not suppress
  (\<open>notification_count < max_notifications\<close>), the spacing required before the
  next notification is \<open>min (notification_interval * (1 + notification_count * 0.5)) 1800\<close>
  seconds.  The call returns a positive decision exactly when the time since the last
  notification is at least this spacing; then \<open>notification_count\<close> is incremented
  and the last-notification time becomes the current time; otherwise both stay as they
  were.  With a base interval of 300 seconds a count of 2 gives 600 and a count of 10
  gives 1800.
\<close>

theorem continuing_notification_interval:
  "(violence_events self sid = Some ev \<and> notification_count ev < max_notifications self \<longrightarrow>
      (send_now (should_send_notification self sid True now) \<longleftrightarrow>
         min (real_of_int (notification_interval self)
                * (1 + real_of_int (notification_count ev) * 0.5)) 1800
           \<le> now - (case last_notification_time self sid of None \<Rightarrow> 0 | Some t \<Rightarrow> t)) \<and>
      (send_now (should_send_notification self sid True now) \<longrightarrow>
         map_option notification_count
           (violence_events (service_after (should_send_notification self sid True now)) sid)
           = Some (notification_count ev + 1) \<and>
         last_notification_time (service_after (should_send_notification self sid True now)) sid
           = Some now) \<and>
      (\<not> send_now (should_send_notification self sid True now) \<longrightarrow>
         map_option notification_count
           (violence_events (service_after (should_send_notification self sid True now)) sid)
           = Some (notification_count ev) \<and>
         last_notification_time (service_after (should_send_notification self sid True now)) sid
           = last_notification_time self sid)) \<and>
   adaptive_interval 300 2 = 600 \<and>
   adaptive_interval 300 10 = 1800"
proof (intro conjI impI)
  assume a: "violence_events self sid = Some ev \<and> notification_count ev < max_notifications self"
  from should_send_continuing [of self sid ev now] a
  obtain ev' where ev':
    "violence_events (service_after (should_send_notification self sid True now)) sid = Some ev'"
    "notification_count ev' =
       (if send_now (should_send_notification self sid True now)
        then notification_count ev + 1 else notification_count ev)"
    "last_notification_time (service_after (should_send_notification self sid True now)) sid =
       (if send_now (should_send_notification self sid True now)
        then Some now else last_notification_time self sid)"
    "send_now (should_send_notification self sid True now) =
       (adaptive_interval (notification_interval self) (notification_count ev)
          \<le> now - (case last_notification_time self sid of None \<Rightarrow> 0 | Some t \<Rightarrow> t))"
    by auto
  show "send_now (should_send_notification self sid True now) \<longleftrightarrow>
         min (real_of_int (notification_interval self)
                * (1 + real_of_int (notification_count ev) * 0.5)) 1800
           \<le> now - (case last_notification_time self sid of None \<Rightarrow> 0 | Some t \<Rightarrow> t)"
    using ev'(4) by (simp add: adaptive_interval_def)
  {
    assume s: "send_now (should_send_notification self sid True now)"
    show "map_option notification_count
           (violence_events (service_after (should_send_notification self sid True now)) sid)
           = Some (notification_count ev + 1)"
      using ev'(1,2) s by simp
    show "last_notification_time (service_after (should_send_notification self sid True now)) sid
           = Some now"
      using ev'(3) s by simp
  }
  {
    assume s: "\<not> send_now (should_send_notification self sid True now)"
    show "map_option notification_count
           (violence_events (service_after (should_send_notification self sid True now)) sid)
           = Some (notification_count ev)"
      using ev'(1,2) s by simp
    show "last_notification_time (service_after (should_send_notification self sid True now)) sid
           = last_notification_time self sid"
      using ev'(3) s by simp
  }
next
  show "adaptive_interval 300 2 = 600" by (simp add: adaptive_interval_def)
  show "adaptive_interval 300 10 = 1800" by (simp add: adaptive_interval_def)
qed

theorem continuing_notification_interval_witness:
  "violence_events cam1_episode ''cam1'' =
     Some \<lparr>start_time = 1000, last_detection_time = 1000, notification_count = 0, max_confidence = 0\<rparr> \<and>
   notification_count \<lparr>start_time = 1000, last_detection_time = 1000, notification_count = 0,
      max_confidence = 0\<rparr> < max_notifications cam1_episode \<and>
   send_now (should_send_notification cam1_episode ''cam1'' True 1300) \<and>
   map_option notification_count
     (violence_events (service_after (should_send_notification cam1_episode ''cam1'' True 1300)) ''cam1'')
     = Some 1 \<and>
   \<not> send_now (should_send_notification cam1_episode ''cam1'' True 1299) \<and>
   last_notification_time (service_after (should_send_notification cam1_episode ''cam1'' True 1299)) ''cam1''
     = Some 1000"
proof -
  let ?ev = "\<lparr>start_time = 1000, last_detection_time = 1000, notification_count = 0,
      max_confidence = 0\<rparr>"
  have h1: "violence_events cam1_episode ''cam1'' = Some ?ev"
    by (simp add: cam1_episode_def should_send_notification_def TelegramService_init_def)
  have h2: "notification_count ?ev < max_notifications cam1_episode"
    by (simp add: cam1_episode_def should_send_notification_def TelegramService_init_def)
  have h3: "last_notification_time cam1_episode ''cam1'' = Some 1000"
    "notification_interval cam1_episode = 300"
    by (simp_all add: cam1_episode_def should_send_notification_def TelegramService_init_def)
  from continuing_notification_interval [of cam1_episode "''cam1''" ?ev 1300]
    continuing_notification_interval [of cam1_episode "''cam1''" ?ev 1299] h1 h2 h3
  show ?thesis by simp
qed

text \<open>
  C7, as amended.  Take a stream without an open episode and any run of detections
  that starts with an event on that stream and contains no non-event for it
  (detections of other streams may be interleaved), so that the whole run lies within
  one episode, the settings of the service being the same throughout.  Then the episode
  is open after every call, and its \<open>notification_count\<close>, read after each call, is
  non-decreasing along the run and never negative; when \<open>max_notifications\<close> is not
  negative, the count never exceeds it.  In any state whose episode has
  \<open>notification_count \<ge> max_notifications\<close>, a further event detection returns a
  negative decision and leaves the count as it was, and so does every detection of any
  further run of event detections on that stream.  \<open>update_settings\<close> leaves the
  episodes and their counts as they are.
\<close>

theorem notification_count_monotone_and_capped:
  "(violence_events self sid = None \<and> (\<forall>e \<in> set evs. fst e = sid \<longrightarrow> fst (snd e)) \<longrightarrow>
      length (notification_counts (detection_run self ((sid, True, conf, t) # evs)) sid)
        = Suc (length evs) \<and>
      sorted (notification_counts (detection_run self ((sid, True, conf, t) # evs)) sid) \<and>
      (\<forall>n \<in> set (notification_counts (detection_run self ((sid, True, conf, t) # evs)) sid).
          0 \<le> n)) \<and>
   (violence_events self sid = None \<and> 0 \<le> max_notifications self \<and>
    (\<forall>e \<in> set evs. fst e = sid \<longrightarrow> fst (snd e)) \<longrightarrow>
      (\<forall>n \<in> set (notification_counts (detection_run self ((sid, True, conf, t) # evs)) sid).
          n \<le> max_notifications self)) \<and>
   (violence_events self sid = Some ev \<and> max_notifications self \<le> notification_count ev \<longrightarrow>
      \<not> send_now (should_send_notification self sid True t) \<and>
      map_option notification_count
        (violence_events (service_after (should_send_notification self sid True t)) sid)
        = Some (notification_count ev)) \<and>
   (violence_events self sid = Some ev \<and> max_notifications self \<le> notification_count ev \<and>
    (\<forall>e \<in> set evs. fst e = sid \<and> fst (snd e)) \<longrightarrow>
      (\<forall>d \<in> set (detection_run self evs). \<not> send_now d \<and>
         map_option notification_count (violence_events (service_after d) sid)
           = Some (notification_count ev))) \<and>
   violence_events (update_settings self new_settings) = violence_events self"
proof -
  let ?self = "self\<lparr>current_detection_confidence := Some conf\<rparr>"
  let ?d = "should_send_notification ?self sid True t"
  let ?ev = "\<lparr>start_time = t, last_detection_time = t, notification_count = 0, max_confidence = 0\<rparr>"
  let ?counts = "notification_counts (detection_run self ((sid, True, conf, t) # evs)) sid"
  have opened: "violence_events (service_after ?d) sid = Some ?ev"
    and cs: "?counts = 0 # notification_counts (detection_run (service_after ?d) evs) sid"
    if "violence_events self sid = None"
  proof -
    from that have "violence_events ?self sid = None" by simp
    from should_send_open_episode [OF this, of t]
    show o: "violence_events (service_after ?d) sid = Some ?ev" by simp
    show "?counts = 0 # notification_counts (detection_run (service_after ?d) evs) sid"
      by (simp add: Let_def notification_counts_Cons o)
  qed
  have A: "length ?counts = Suc (length evs) \<and> sorted ?counts \<and> (\<forall>n \<in> set ?counts. 0 \<le> n)"
    if a: "violence_events self sid = None \<and> (\<forall>e \<in> set evs. fst e = sid \<longrightarrow> fst (snd e))"
  proof -
    from episode_run_mono [OF opened, of evs] a
    have "length (notification_counts (detection_run (service_after ?d) evs) sid) = length evs"
      "sorted (0 # notification_counts (detection_run (service_after ?d) evs) sid)"
      by simp_all
    then show ?thesis
      using cs a by auto
  qed
  have B: "\<forall>n \<in> set ?counts. n \<le> max_notifications self"
    if a: "violence_events self sid = None \<and> 0 \<le> max_notifications self \<and>
      (\<forall>e \<in> set evs. fst e = sid \<longrightarrow> fst (snd e))"
  proof -
    have "notification_count ?ev \<le> max_notifications (service_after ?d)"
      using a by simp
    from episode_run [OF opened this, of evs] a
    have "\<forall>n \<in> set (notification_counts (detection_run (service_after ?d) evs) sid).
        n \<le> max_notifications self"
      by simp
    then show ?thesis
      using cs a by auto
  qed
  have C: "\<not> send_now (should_send_notification self sid True t) \<and>
      map_option notification_count
        (violence_events (service_after (should_send_notification self sid True t)) sid)
        = Some (notification_count ev)"
    if "violence_events self sid = Some ev \<and> max_notifications self \<le> notification_count ev"
    using that should_send_continuing [of self sid ev t] by auto
  have D: "\<forall>d \<in> set (detection_run self evs). \<not> send_now d \<and>
         map_option notification_count (violence_events (service_after d) sid)
           = Some (notification_count ev)"
    if "violence_events self sid = Some ev \<and> max_notifications self \<le> notification_count ev \<and>
      (\<forall>e \<in> set evs. fst e = sid \<and> fst (snd e))"
    using that capped_run [of self sid ev evs] by blast
  show ?thesis
    using A B C D update_settings_violence_events [of self new_settings] by blast
qed

theorem notification_count_monotone_and_capped_witness:
  "violence_events eager_service ''cam1'' = None \<and>
   0 \<le> max_notifications eager_service \<and>
   list_all (\<lambda>(sid, violence, conf, t). sid = ''cam1'' \<and> violence) cam1_events \<and>
   notification_counts (detection_run eager_service ((''cam1'', True, 0.8, 0) # cam1_events)) ''cam1''
     = [0, 1, 2, 3, 4, 5, 5, 5] \<and>
   map send_now (detection_run eager_service ((''cam1'', True, 0.8, 0) # cam1_events))
     = [True, True, True, True, True, True, False, False] \<and>
   sorted (notification_counts
     (detection_run eager_service ((''cam1'', True, 0.8, 0) # cam1_events)) ''cam1'') \<and>
   list_all (\<lambda>n. 0 \<le> n \<and> n \<le> max_notifications eager_service)
     (notification_counts
       (detection_run eager_service ((''cam1'', True, 0.8, 0) # cam1_events)) ''cam1'') \<and>
   violence_events cam1_capped ''cam1'' =
     Some \<lparr>start_time = 0, last_detection_time = 5, notification_count = 5, max_confidence = 0.8\<rparr> \<and>
   max_notifications cam1_capped
     \<le> notification_count \<lparr>start_time = 0, last_detection_time = 5, notification_count = 5,
          max_confidence = 0.8\<rparr> \<and>
   \<not> send_now (should_send_notification cam1_capped ''cam1'' True 6) \<and>
   list_all (\<lambda>(sid, violence, conf, t). sid = ''cam1'' \<and> violence) (drop 5 cam1_events) \<and>
   length (detection_run cam1_capped (drop 5 cam1_events)) = 2 \<and>
   list_all (\<lambda>d. \<not> send_now d) (detection_run cam1_capped (drop 5 cam1_events))"
proof -
  let ?ev = "\<lparr>start_time = 0, last_detection_time = 5, notification_count = 5, max_confidence = 0.8\<rparr>"
  let ?run = "detection_run eager_service ((''cam1'', True, 0.8, 0) # cam1_events)"
  have h1: "violence_events eager_service ''cam1'' = None"
    by code_simp
  have h2: "0 \<le> max_notifications eager_service"
    by code_simp
  have h3: "list_all (\<lambda>(sid, violence, conf, t). sid = ''cam1'' \<and> violence) cam1_events"
    by code_simp
  then have h3': "\<forall>e \<in> set cam1_events. fst e = ''cam1'' \<longrightarrow> fst (snd e)"
    by (auto simp: list_all_iff)
  have h4: "violence_events cam1_capped ''cam1'' = Some ?ev"
    by code_simp
  have h5: "max_notifications cam1_capped \<le> notification_count ?ev"
    by code_simp
  have e1: "notification_counts ?run ''cam1'' = [0, 1, 2, 3, 4, 5, 5, 5]"
    by code_simp
  have e2: "map send_now ?run = [True, True, True, True, True, True, False, False]"
    by code_simp
  from notification_count_monotone_and_capped [where self = eager_service and sid = "''cam1''"
      and evs = cam1_events and conf = "0.8" and t = 0]
    h1 h2 h3'
  have run: "sorted (notification_counts ?run ''cam1'')"
    "\<forall>n \<in> set (notification_counts ?run ''cam1'').
      0 \<le> n \<and> n \<le> max_notifications eager_service"
    by blast+
  from run(2) have bounded: "list_all (\<lambda>n. 0 \<le> n \<and> n \<le> max_notifications eager_service)
      (notification_counts ?run ''cam1'')"
    by (simp add: list_all_iff)
  from notification_count_monotone_and_capped [where self = cam1_capped and sid = "''cam1''"
      and ev = ?ev and t = 6] h4 h5
  have cap: "\<not> send_now (should_send_notification cam1_capped ''cam1'' True 6)"
    by blast
  have h6: "list_all (\<lambda>(sid, violence, conf, t). sid = ''cam1'' \<and> violence) (drop 5 cam1_events)"
    by code_simp
  then have h6': "\<forall>e \<in> set (drop 5 cam1_events). fst e = ''cam1'' \<and> fst (snd e)"
    by (auto simp: list_all_iff)
  have e3: "length (detection_run cam1_capped (drop 5 cam1_events)) = 2"
    by code_simp
  from notification_count_monotone_and_capped [where self = cam1_capped and sid = "''cam1''"
      and ev = ?ev and evs = "drop 5 cam1_events"] h4 h5 h6'
  have "\<forall>d \<in> set (detection_run cam1_capped (drop 5 cam1_events)). \<not> send_now d"
    by blast
  then have quiet: "list_all (\<lambda>d. \<not> send_now d) (detection_run cam1_capped (drop 5 cam1_events))"
    by (simp add: list_all_iff)
  from h1 h2 h3 h4 h5 h6 e1 e2 e3 run(1) bounded cap quiet show ?thesis
    by blast
qed

text \<open>
  The cap is a live setting without validation.  After two further notifications of an
  episode, \<open>update_settings\<close> lowers \<open>max_notifications\<close> to 1: the count 2 of
  the open episode is above the cap.  And with \<open>max_notifications = -1\<close> the count 0
  of a newly opened episode is above the cap.
\<close>

theorem notification_count_above_cap_counterexample:
  "map_option notification_count (violence_events
      (update_settings
         (service_after (last (detection_run eager_service
            ((''cam1'', True, 0.8, 0) # take 2 cam1_events))))
         lowered_cap) ''cam1'') = Some 2 \<and>
   max_notifications
      (update_settings
         (service_after (last (detection_run eager_service
            ((''cam1'', True, 0.8, 0) # take 2 cam1_events))))
         lowered_cap) = 1 \<and>
   map_option notification_count (violence_events
      (service_after (should_send_notification
         (update_settings TelegramService_init negative_cap) ''cam1'' True 0)) ''cam1'') = Some 0 \<and>
   max_notifications (service_after (should_send_notification
         (update_settings TelegramService_init negative_cap) ''cam1'' True 0)) = - 1"
  by code_simp

section \<open>Properties of the stream registry\<close>

lemma get_latest_results_loop_eq:
  "get_latest_results_loop m queue results =
     (results @ take (m - length results) queue, drop (m - length results) queue)"
proof (induction queue arbitrary: results)
  case Nil
  then show ?case by simp
next
  case (Cons r queue)
  show ?case
  proof (cases "length results < m")
    case True
    then have "m - length results = Suc (m - Suc (length results))" by simp
    with True Cons show ?thesis by simp
  next
    case False
    then show ?thesis by simp
  qed
qed

lemma get_latest_results_eq:
  "get_latest_results m self =
     (take m (results_queue self), self\<lparr>results_queue := drop m (results_queue self)\<rparr>)"
  by (simp add: get_latest_results_def get_latest_results_loop_eq)

lemma get_latest_detections_loop_eq:
  "get_latest_detections_loop ss acc =
     (acc @ concat (map (\<lambda>(sid, p). take 10 (results_queue p)) ss),
      map (\<lambda>(sid, p). (sid, p\<lparr>results_queue := drop 10 (results_queue p)\<rparr>)) ss)"
  by (induction ss arbitrary: acc) (auto simp: get_latest_results_eq)

lemma py_sort_reverse_sorted:
  "sorted_wrt (\<lambda>a b. key b \<le> key a) (py_sort_reverse key xs)"
proof -
  have "sorted (map (\<lambda>x. - key x) (sort_key (\<lambda>x. - key x) xs))"
    by (rule sorted_sort_key)
  then show ?thesis
    by (simp add: py_sort_reverse_def sorted_map)
qed

lemma py_sort_reverse_mset [simp]: "mset (py_sort_reverse key xs) = mset xs"
  by (simp add: py_sort_reverse_def)

lemma get_latest_detections_eq:
  "get_latest_detections self =
     (py_sort_reverse timestamp (concat (map (\<lambda>(sid, p). take 10 (results_queue p)) (streams self))),
      self\<lparr>streams := map (\<lambda>(sid, p). (sid, p\<lparr>results_queue := drop 10 (results_queue p)\<rparr>))
                           (streams self)\<rparr>)"
  by (simp add: get_latest_detections_def get_latest_detections_loop_eq)

text \<open>
  C2, as amended.  One call of \<open>get_latest_detections\<close> returns, for every stream,
  the first ten results of its queue (all of them when there are at most ten) and
  leaves the others queued in their order; the returned list holds exactly these
  results and is sorted by timestamp in descending order.  When no queue holds more
  than ten results, all pending results are returned and every queue is empty
  afterwards.
\<close>

theorem drain_takes_ten_per_stream_sorted:
  "mset (fst (get_latest_detections self)) =
     mset (concat (map (\<lambda>(sid, p). take 10 (results_queue p)) (streams self))) \<and>
   streams (snd (get_latest_detections self)) =
     map (\<lambda>(sid, p). (sid, p\<lparr>results_queue := drop 10 (results_queue p)\<rparr>)) (streams self) \<and>
   sorted_wrt (\<lambda>a b. timestamp b \<le> timestamp a) (fst (get_latest_detections self)) \<and>
   ((\<forall>(sid, p) \<in> set (streams self). length (results_queue p) \<le> 10) \<longrightarrow>
      mset (fst (get_latest_detections self)) =
        mset (concat (map (\<lambda>(sid, p). results_queue p) (streams self))) \<and>
      (\<forall>(sid, p) \<in> set (streams (snd (get_latest_detections self))). results_queue p = []))"
proof (intro conjI impI)
  show "mset (fst (get_latest_detections self)) =
     mset (concat (map (\<lambda>(sid, p). take 10 (results_queue p)) (streams self)))"
    by (simp add: get_latest_detections_eq)
  show "streams (snd (get_latest_detections self)) =
     map (\<lambda>(sid, p). (sid, p\<lparr>results_queue := drop 10 (results_queue p)\<rparr>)) (streams self)"
    by (simp add: get_latest_detections_eq)
  show "sorted_wrt (\<lambda>a b. timestamp b \<le> timestamp a) (fst (get_latest_detections self))"
    by (simp add: get_latest_detections_eq py_sort_reverse_sorted)
next
  assume small: "\<forall>(sid, p) \<in> set (streams self). length (results_queue p) \<le> 10"
  then have all: "map (\<lambda>(sid, p). take 10 (results_queue p)) (streams self) =
      map (\<lambda>(sid, p). results_queue p) (streams self)"
    by (intro map_cong) auto
  show "mset (fst (get_latest_detections self)) =
        mset (concat (map (\<lambda>(sid, p). results_queue p) (streams self)))"
    by (simp add: get_latest_detections_eq all)
  from small show "\<forall>(sid, p) \<in> set (streams (snd (get_latest_detections self))). results_queue p = []"
    by (auto simp: get_latest_detections_eq)
qed

theorem drain_takes_ten_per_stream_sorted_witness:
  "map (\<lambda>(sid, p). length (results_queue p)) (streams two_cameras) = [2, 2] \<and>
   fst (get_latest_detections two_cameras) =
     [detection_at 4, detection_at 3, detection_at 2, detection_at 1] \<and>
   mset (fst (get_latest_detections two_cameras)) =
     mset (concat (map (\<lambda>(sid, p). results_queue p) (streams two_cameras))) \<and>
   map (\<lambda>(sid, p). results_queue p) (streams (snd (get_latest_detections two_cameras)))
     = [[], []]"
proof -
  have h: "\<forall>(sid, p) \<in> set (streams two_cameras). length (results_queue p) \<le> 10"
    by code_simp
  have e: "map (\<lambda>(sid, p). length (results_queue p)) (streams two_cameras) = [2, 2]"
    "fst (get_latest_detections two_cameras) =
       [detection_at 4, detection_at 3, detection_at 2, detection_at 1]"
    "map (\<lambda>(sid, p). results_queue p) (streams (snd (get_latest_detections two_cameras)))
       = [[], []]"
    by code_simp+
  from drain_takes_ten_per_stream_sorted [of two_cameras] h
  have "mset (fst (get_latest_detections two_cameras)) =
     mset (concat (map (\<lambda>(sid, p). results_queue p) (streams two_cameras)))"
    by blast
  with e show ?thesis by blast
qed

text \<open>
  A stream with eleven pending results: one call returns ten of them and the eleventh
  stays in the queue.
\<close>

theorem drain_leaves_eleventh_result_counterexample:
  "map timestamp (fst (get_latest_detections cam1_backlog)) = [10, 9, 8, 7, 6, 5, 4, 3, 2, 1] \<and>
   map (\<lambda>(sid, p). results_queue p) (streams (snd (get_latest_detections cam1_backlog)))
     = [[detection_at 11]]"
  by code_simp

text \<open>
  C8.  When the stream id is already present, the body of \<open>add_stream\<close> raises the
  ValueError that says so, \<open>add_stream\<close> returns \<open>False\<close> with the manager
  unchanged (the entry of the id, its processor, url and name included), and the handler
  of \<open>POST /api/streams\<close> answers with an HTTP error of status 400.  \<open>False\<close> is
  returned in no other case, so this failure identifies the duplicate id.
\<close>

theorem add_duplicate_stream_fails:
  "(sid \<in> set (map fst (streams self)) \<longrightarrow>
      add_stream_body settings now self sid url nm
        = Inl (ValueError (''Stream '' @ sid @ '' already exists'')) \<and>
      add_stream settings now self sid url nm = (False, self) \<and>
      map_of (streams (snd (add_stream settings now self sid url nm))) sid
        = map_of (streams self) sid \<and>
      api_add_stream exc_str settings now (Some self) sid url nm
        = (HTTPException 400 (exc_str 400 ''Failed to add stream''), Some self)) \<and>
   (fst (add_stream settings now self sid url nm) = False \<longleftrightarrow>
      sid \<in> set (map fst (streams self)))"
  by (simp add: add_stream_def add_stream_body_def api_add_stream_def)

theorem add_duplicate_stream_fails_witness:
  "''cam1'' \<in> set (map fst (streams one_camera)) \<and>
   add_stream default_settings 7 one_camera ''cam1'' ''rtsp://other'' ''Back door''
     = (False, one_camera) \<and>
   map (\<lambda>(sid, p). (sid, rtsp_url p, name p)) (streams (snd
      (add_stream default_settings 7 one_camera ''cam1'' ''rtsp://other'' ''Back door'')))
     = [(''cam1'', ''rtsp://cam1'', ''Front door'')] \<and>
   fst (api_add_stream (\<lambda>status detail. detail) default_settings 7 (Some one_camera)
      ''cam1'' ''rtsp://other'' ''Back door'') = HTTPException 400 ''Failed to add stream''"
proof -
  have h: "''cam1'' \<in> set (map fst (streams one_camera))"
    by (simp add: one_camera_def add_stream_def add_stream_body_def RTSPManager_init_def)
  have e: "map (\<lambda>(sid, p). (sid, rtsp_url p, name p)) (streams one_camera)
     = [(''cam1'', ''rtsp://cam1'', ''Front door'')]"
    by (simp add: one_camera_def add_stream_def add_stream_body_def RTSPManager_init_def
        RTSPProcessor_init_def)
  from add_duplicate_stream_fails [where self = one_camera and sid = "''cam1''"
      and settings = default_settings and now = 7 and url = "''rtsp://other''"
      and nm = "''Back door''" and exc_str = "\<lambda>status detail. detail"] h e
  show ?thesis by simp
qed

section \<open>Properties of the connection manager\<close>




end
